theory Spec2Isabelle
  imports Complex_Main "HOL-Library.Char_ord" "HOL-Library.List_Lexorder"
begin

section \<open>Data frames\<close>

text \<open>
  The dashboard script \<^verbatim>\<open>streamlit_app.py\<close> works on pandas data frames. A frame is
  modelled as the ordered list of its named columns, a column as the list of its cells.
  A cell is a missing value (NaN or NaT), a text, a number or a timestamp. Numbers are
  rationals: the integer counts of the data file and the product with the literal
  \<^verbatim>\<open>1.05\<close> are computed exactly, the rounding of binary floating point and the range
  of 64-bit integers are not modelled. All columns of a frame have the same length
  (\<open>wf_frame\<close>).
\<close>

datatype cell = NA | Text string | Number rat | Stamp int

type_synonym column = "cell list"

type_synonym frame = "(string \<times> column) list"

datatype error = KeyError string | TypeError | ValueError | IndexError

definition wf_frame :: "nat \<Rightarrow> frame \<Rightarrow> bool" where
  "wf_frame n df = list_all (\<lambda>nc. length (snd nc) = n) df"

text \<open>\<^verbatim>\<open>df[name]\<close>: the column of that name, KeyError when there is none.\<close>

definition getitem :: "frame \<Rightarrow> string \<Rightarrow> error + column" where
  "getitem df name = (case map_of df name of None \<Rightarrow> Inl (KeyError name) | Some c \<Rightarrow> Inr c)"

text \<open>\<^verbatim>\<open>df[name] = col\<close>: replaces the column of that name where it stands, or appends it.\<close>

fun setitem :: "frame \<Rightarrow> string \<Rightarrow> column \<Rightarrow> frame" where
  "setitem [] name col = [(name, col)]"
| "setitem ((n, c) # df) name col =
     (if n = name then (n, col) # df else (n, c) # setitem df name col)"

text \<open>Running a list of computations, stopping at the first error as an exception does.\<close>

fun sequence :: "(error + 'a) list \<Rightarrow> error + 'a list" where
  "sequence [] = Inr []"
| "sequence (x # xs) =
     (case x of
        Inl e \<Rightarrow> Inl e
      | Inr v \<Rightarrow> (case sequence xs of Inl e \<Rightarrow> Inl e | Inr vs \<Rightarrow> Inr (v # vs)))"

section \<open>Loading\<close>

text \<open>
  \<^verbatim>\<open>df['date_'].dtype == 'object'\<close>: a column read from the file has dtype object
  exactly when it holds text that is no number.
\<close>

fun is_text :: "cell \<Rightarrow> bool" where
  "is_text (Text s) = True"
| "is_text c = False"

definition dtype_object :: "column \<Rightarrow> bool" where
  "dtype_object col = list_ex is_text col"

text \<open>A column is of a date/time type when its cells are timestamps (or missing).\<close>

fun is_stamp :: "cell \<Rightarrow> bool" where
  "is_stamp (Stamp t) = True"
| "is_stamp NA = True"
| "is_stamp c = False"

definition dtype_datetime :: "column \<Rightarrow> bool" where
  "dtype_datetime col = list_all is_stamp col"

definition rename_map :: "(string \<times> string) list" where
  "rename_map =
    [(''sb_sessions'', ''sb_hardware_sessions''),
     (''sb_messages'', ''sb_hardware_messages''),
     (''edc_sessions'', ''edc_hardware_sessions''),
     (''edc_messages'', ''edc_hardware_messages''),
     (''payment_acceptence_sessions'', ''payment_acceptance_sessions''),
     (''payment_acceptence_messages'', ''payment_acceptance_messages'')]"

text \<open>\<^verbatim>\<open>df.rename(columns=m)\<close>: a column whose name is a key of \<open>m\<close> takes the mapped
  name, every other column keeps its name; the cells are not touched.\<close>

definition rename_column :: "(string \<times> string) list \<Rightarrow> string \<Rightarrow> string" where
  "rename_column m n = (case map_of m n of None \<Rightarrow> n | Some n' \<Rightarrow> n')"

definition rename :: "(string \<times> string) list \<Rightarrow> frame \<Rightarrow> frame" where
  "rename m df = map (\<lambda>nc. (rename_column m (fst nc), snd nc)) df"

text \<open>
  \<open>load_data\<close>, lines 13 to 36. The frame read from the file is the argument \<open>raw\<close>;
  the library's date parser, applied to each cell of the date column, is the argument
  \<open>to_datetime\<close> (it raises on a cell it cannot parse).
\<close>

definition load_data :: "(cell \<Rightarrow> error + cell) \<Rightarrow> frame \<Rightarrow> error + frame" where
  "load_data to_datetime raw =
    (case getitem raw ''date_'' of
       Inl e \<Rightarrow> Inl e
     | Inr col \<Rightarrow>
        (case (if dtype_object col
               then (case sequence (map to_datetime col) of
                       Inl e \<Rightarrow> Inl e
                     | Inr col' \<Rightarrow> Inr (setitem raw ''date_'' col'))
               else Inr raw) of
           Inl e \<Rightarrow> Inl e
         | Inr df \<Rightarrow> Inr (rename rename_map df)))"

section \<open>Category registry\<close>

definition category_mapping :: "(string \<times> string) list" where
  "category_mapping =
    [(''Soundbox Hardware'', ''sb_hardware''),
     (''Device Return'', ''device_return''),
     (''Business Loan'', ''business_loan''),
     (''Customer Care'', ''customer_care''),
     (''Profile'', ''profile''),
     (''EDC Hardware'', ''edc_hardware''),
     (''Payment Acceptence'', ''payment_acceptance''),
     (''Refund'', ''refund''),
     (''Rental Charges'', ''rental_charges''),
     (''Generic Query'', ''generic_query''),
     (''Settlement & Deductions'', ''settlement_deductions''),
     (''Others'', ''other'')]"

text \<open>Lines 115 and 116: the column of a selected category, KeyError for an unknown label.\<close>

definition intent_column :: "string \<Rightarrow> string \<Rightarrow> error + string" where
  "intent_column kind cat =
    (case map_of category_mapping cat of
       None \<Rightarrow> Inl (KeyError cat)
     | Some v \<Rightarrow> Inr (v @ ''_'' @ kind))"

definition selected_intent :: "string \<Rightarrow> string list \<Rightarrow> error + string list" where
  "selected_intent kind selected_categories =
     sequence (map (intent_column kind) selected_categories)"

text \<open>\<^verbatim>\<open>x.startswith(v)\<close>\<close>

fun startswith :: "string \<Rightarrow> string \<Rightarrow> bool" where
  "startswith x [] = True"
| "startswith [] (c # v) = False"
| "startswith (a # x) (c # v) = (a = c \<and> startswith x v)"

text \<open>Lines 129 and 169: the first label of the registry whose prefix starts \<open>x\<close>;
  indexing the empty list of matches raises IndexError.\<close>

definition intent_label :: "string \<Rightarrow> error + string" where
  "intent_label x =
    (case map fst (filter (\<lambda>kv. startswith x (snd kv)) category_mapping) of
       [] \<Rightarrow> Inl IndexError
     | k # ks \<Rightarrow> Inr k)"

text \<open>The exact reverse lookup: the label whose prefix is \<open>v\<close>.\<close>

definition label_of_prefix :: "string \<Rightarrow> string option" where
  "label_of_prefix v = map_of (map (\<lambda>kv. (snd kv, fst kv)) category_mapping) v"

section \<open>Aggregation\<close>

text \<open>
  \<^verbatim>\<open>Series.sum()\<close>, lines 68, 72, 104 and 108: missing cells are skipped, the sum of
  nothing is 0. A column that holds text or timestamps cannot be shown as a number
  (the sum of timestamps raises, the sum of texts is a text that the format
  \<^verbatim>\<open>{:,}\<close> of the next line rejects); both are reported as TypeError.
\<close>

fun add_cell :: "rat \<Rightarrow> cell \<Rightarrow> error + rat" where
  "add_cell acc (Number x) = Inr (acc + x)"
| "add_cell acc c = Inl TypeError"

fun sum_cells :: "rat \<Rightarrow> cell list \<Rightarrow> error + rat" where
  "sum_cells acc [] = Inr acc"
| "sum_cells acc (c # cs) =
     (case add_cell acc c of Inl e \<Rightarrow> Inl e | Inr acc' \<Rightarrow> sum_cells acc' cs)"

definition series_sum :: "column \<Rightarrow> error + rat" where
  "series_sum col = sum_cells 0 (filter (\<lambda>c. c \<noteq> NA) col)"

definition total :: "frame \<Rightarrow> string \<Rightarrow> error + rat" where
  "total df name = (case getitem df name of Inl e \<Rightarrow> Inl e | Inr col \<Rightarrow> series_sum col)"


fun is_numeric :: "cell \<Rightarrow> bool" where
  "is_numeric (Number x) = True"
| "is_numeric NA = True"
| "is_numeric c = False"

section \<open>Reshaping\<close>

record long_record =
  rec_date :: cell
  rec_intent :: string
  rec_value :: cell

text \<open>
  \<^verbatim>\<open>df.melt(id_vars=[id_var], value_vars=value_vars)\<close>: the value columns are stacked
  one after the other in the order of \<open>value_vars\<close>, each next to a copy of the
  identifier column and labelled with its own name. The value columns are distinct
  (the selection widget returns no label twice).
\<close>

definition melt_column :: "column \<Rightarrow> string \<Rightarrow> column \<Rightarrow> long_record list" where
  "melt_column ids name col =
     map (\<lambda>dv. \<lparr>rec_date = fst dv, rec_intent = name, rec_value = snd dv\<rparr>) (zip ids col)"

definition melt :: "frame \<Rightarrow> string \<Rightarrow> string list \<Rightarrow> error + long_record list" where
  "melt df id_var value_vars =
    (case getitem df id_var of
       Inl e \<Rightarrow> Inl e
     | Inr ids \<Rightarrow>
        (case sequence (map (getitem df) value_vars) of
           Inl e \<Rightarrow> Inl e
         | Inr cols \<Rightarrow>
             Inr (concat (map (\<lambda>nc. melt_column ids (fst nc) (snd nc)) (zip value_vars cols)))))"

text \<open>Lines 128 to 130: the column of names is replaced by the column of labels.\<close>

definition relabel :: "long_record \<Rightarrow> error + long_record" where
  "relabel r =
    (case intent_label (rec_intent r) of
       Inl e \<Rightarrow> Inl e
     | Inr k \<Rightarrow> Inr (r\<lparr>rec_intent := k\<rparr>))"

definition apply_intent :: "long_record list \<Rightarrow> error + long_record list" where
  "apply_intent melted = sequence (map relabel melted)"

text \<open>
  \<^verbatim>\<open>Series.min()\<close> and \<^verbatim>\<open>Series.max()\<close>: missing cells are skipped, and the result is
  missing when nothing is left. Cells of different kinds do not compare.
\<close>

fun pick :: "bool \<Rightarrow> cell \<Rightarrow> cell \<Rightarrow> error + cell" where
  "pick lo (Number a) (Number b) = Inr (Number (if lo then min a b else max a b))"
| "pick lo (Stamp a) (Stamp b) = Inr (Stamp (if lo then min a b else max a b))"
| "pick lo (Text a) (Text b) = Inr (Text (if lo then min a b else max a b))"
| "pick lo c d = Inl TypeError"

fun reduce_cells :: "bool \<Rightarrow> cell \<Rightarrow> cell list \<Rightarrow> error + cell" where
  "reduce_cells lo acc [] = Inr acc"
| "reduce_cells lo acc (c # cs) =
     (case pick lo acc c of Inl e \<Rightarrow> Inl e | Inr acc' \<Rightarrow> reduce_cells lo acc' cs)"

definition series_min :: "column \<Rightarrow> error + cell" where
  "series_min col =
    (case filter (\<lambda>c. c \<noteq> NA) col of [] \<Rightarrow> Inr NA | c # cs \<Rightarrow> reduce_cells True c cs)"

definition series_max :: "column \<Rightarrow> error + cell" where
  "series_max col =
    (case filter (\<lambda>c. c \<noteq> NA) col of [] \<Rightarrow> Inr NA | c # cs \<Rightarrow> reduce_cells False c cs)"

text \<open>\<^verbatim>\<open>max_val*1.05\<close>\<close>

fun times_cell :: "cell \<Rightarrow> rat \<Rightarrow> error + cell" where
  "times_cell (Number a) f = Inr (Number (a * f))"
| "times_cell NA f = Inr NA"
| "times_cell c f = Inl TypeError"

text \<open>
  Lines 133 to 142 (and 173 to 182): the two rows added for the chart's axis. The zero
  row is appended first; the maximum for the top buffer row is taken over the frame
  that already holds it, and both rows take the label of the first row.
\<close>

definition zero_row :: "cell \<Rightarrow> long_record list \<Rightarrow> long_record" where
  "zero_row min_date melted =
     \<lparr>rec_date = min_date, rec_intent = rec_intent (hd melted), rec_value = Number 0\<rparr>"

definition top_buffer :: "cell \<Rightarrow> long_record list \<Rightarrow> error + long_record" where
  "top_buffer min_date melted =
    (case series_max (map rec_value melted) of
       Inl e \<Rightarrow> Inl e
     | Inr max_val \<Rightarrow>
        (case times_cell max_val (105 / 100) of
           Inl e \<Rightarrow> Inl e
         | Inr top_value \<Rightarrow>
            Inr \<lparr>rec_date = min_date, rec_intent = rec_intent (hd melted),
                 rec_value = top_value\<rparr>))"

definition pad :: "long_record list \<Rightarrow> error + long_record list" where
  "pad melted =
    (if melted = [] then Inr melted
     else
      (case series_min (map rec_date melted) of
         Inl e \<Rightarrow> Inl e
       | Inr min_date \<Rightarrow>
          (let melted1 = melted @ [zero_row min_date melted]
           in (case top_buffer min_date melted1 of
                 Inl e \<Rightarrow> Inl e
               | Inr top_row \<Rightarrow> Inr (melted1 @ [top_row])))))"

text \<open>
  Lines 115 to 142 for \<open>kind = ''sessions''\<close> and lines 116, 160 to 182 for
  \<open>kind = ''messages''\<close>: the two blocks differ in these names only. With no category
  selected there is no chart and no data.
\<close>

definition reshape :: "frame \<Rightarrow> string list \<Rightarrow> string \<Rightarrow> error + long_record list" where
  "reshape df selected_categories kind =
    (case selected_intent kind selected_categories of
       Inl e \<Rightarrow> Inl e
     | Inr value_vars \<Rightarrow>
        (if selected_categories = [] then Inr []
         else
          (case melt df ''date_'' value_vars of
             Inl e \<Rightarrow> Inl e
           | Inr melted \<Rightarrow>
              (case apply_intent melted of
                 Inl e \<Rightarrow> Inl e
               | Inr labelled \<Rightarrow> pad labelled))))"

section \<open>Notions used in the statements\<close>

text \<open>
  A selected category is given as its entry (label, prefix) of the registry; the widget
  passes the labels. Its column for a metric kind is \<open>prefix @ ''_'' @ kind\<close>.
\<close>

definition derived_column :: "string \<Rightarrow> string \<times> string \<Rightarrow> string" where
  "derived_column kind c = snd c @ ''_'' @ kind"

text \<open>The numbers of a column, the missing cells left out.\<close>

fun numbers :: "cell list \<Rightarrow> rat list" where
  "numbers [] = []"
| "numbers (Number x # cs) = x # numbers cs"
| "numbers (c # cs) = numbers cs"


text \<open>
  The records of the table itself, before the two rows for the axis: for each selected
  category in turn, one record per row, labelled with the category's label.
\<close>

definition real_records :: "column \<Rightarrow> (string \<times> string) list \<Rightarrow> column list \<Rightarrow> long_record list" where
  "real_records dates cats cols =
     concat (map (\<lambda>cc. melt_column dates (fst (fst cc)) (snd cc)) (zip cats cols))"

section \<open>Objects and references\<close>

text \<open>
  The script holds its frames by reference: \<^verbatim>\<open>filtered_df = df\<close> (line 98) is a second
  name for the loaded table, not a copy. To follow which object a statement writes to,
  the objects live in a store, addressed by their position. \<^verbatim>\<open>melt\<close> and
  \<^verbatim>\<open>pd.concat\<close> build a new object; the assignment to the column \<^verbatim>\<open>Intent\<close>
  (lines 128 and 168) writes into the object it is applied to.
\<close>

datatype obj = Frame frame | Long "long_record list"

type_synonym ref = nat

type_synonym heap = "obj list"

definition lookup :: "heap \<Rightarrow> ref \<Rightarrow> obj option" where
  "lookup h a = (if a < length h then Some (h ! a) else None)"

definition alloc :: "heap \<Rightarrow> obj \<Rightarrow> ref \<times> heap" where
  "alloc h x = (length h, h @ [x])"

text \<open>Lines 68, 72, 104 and 108.\<close>

definition run_total :: "ref \<Rightarrow> string \<Rightarrow> heap \<Rightarrow> (error + rat) \<times> heap" where
  "run_total a name h =
    (case lookup h a of
       Some (Frame df) \<Rightarrow> (total df name, h)
     | _ \<Rightarrow> (Inl TypeError, h))"

text \<open>Lines 121 to 126.\<close>

definition run_melt :: "ref \<Rightarrow> string \<Rightarrow> string list \<Rightarrow> heap \<Rightarrow> (error + ref) \<times> heap" where
  "run_melt a id_var value_vars h =
    (case lookup h a of
       Some (Frame df) \<Rightarrow>
        (case melt df id_var value_vars of
           Inl e \<Rightarrow> (Inl e, h)
         | Inr melted \<Rightarrow> (case alloc h (Long melted) of (m, h') \<Rightarrow> (Inr m, h')))
     | _ \<Rightarrow> (Inl TypeError, h))"

text \<open>Lines 128 to 130.\<close>

definition run_apply_intent :: "ref \<Rightarrow> heap \<Rightarrow> (error + unit) \<times> heap" where
  "run_apply_intent m h =
    (case lookup h m of
       Some (Long melted) \<Rightarrow>
        (case apply_intent melted of
           Inl e \<Rightarrow> (Inl e, h)
         | Inr labelled \<Rightarrow> (Inr (), h[m := Long labelled]))
     | _ \<Rightarrow> (Inl TypeError, h))"

text \<open>Lines 133 to 142; the variable is bound to the new object after each \<^verbatim>\<open>concat\<close>.\<close>

definition run_pad :: "ref \<Rightarrow> heap \<Rightarrow> (error + ref) \<times> heap" where
  "run_pad m h =
    (case lookup h m of
       Some (Long melted) \<Rightarrow>
        (if melted = [] then (Inr m, h)
         else
          (case series_min (map rec_date melted) of
             Inl e \<Rightarrow> (Inl e, h)
           | Inr min_date \<Rightarrow>
              (let melted1 = melted @ [zero_row min_date melted]
               in (case alloc h (Long melted1) of
                     (m1, h1) \<Rightarrow>
                      (case top_buffer min_date melted1 of
                         Inl e \<Rightarrow> (Inl e, h1)
                       | Inr top_row \<Rightarrow>
                          (case alloc h1 (Long (melted1 @ [top_row])) of
                             (m2, h2) \<Rightarrow> (Inr m2, h2)))))))
     | _ \<Rightarrow> (Inl TypeError, h))"

definition run_reshape ::
  "ref \<Rightarrow> string list \<Rightarrow> string \<Rightarrow> heap \<Rightarrow> (error + ref option) \<times> heap" where
  "run_reshape filtered_df selected_categories kind h =
    (case selected_intent kind selected_categories of
       Inl e \<Rightarrow> (Inl e, h)
     | Inr value_vars \<Rightarrow>
        (if selected_categories = [] then (Inr None, h)
         else
          (case run_melt filtered_df ''date_'' value_vars h of
             (Inl e, h1) \<Rightarrow> (Inl e, h1)
           | (Inr m, h1) \<Rightarrow>
              (case run_apply_intent m h1 of
                 (Inl e, h2) \<Rightarrow> (Inl e, h2)
               | (Inr u, h2) \<Rightarrow>
                  (case run_pad m h2 of
                     (Inl e, h3) \<Rightarrow> (Inl e, h3)
                   | (Inr r, h3) \<Rightarrow> (Inr (Some r), h3))))))"

text \<open>A run of the dashboard is a sequence of totals and charts over the one table.\<close>

datatype call = Total string | Reshape "string list" string

fun run_call :: "ref \<Rightarrow> call \<Rightarrow> heap \<Rightarrow> heap" where
  "run_call df (Total name) h = snd (run_total df name h)"
| "run_call df (Reshape selected_categories kind) h =
     snd (run_reshape df selected_categories kind h)"

fun run_calls :: "ref \<Rightarrow> call list \<Rightarrow> heap \<Rightarrow> heap" where
  "run_calls df [] h = h"
| "run_calls df (c # cs) h = run_calls df cs (run_call df c h)"

section \<open>Sample data\<close>

text \<open>
  A stand-in for the library's date parser on the dates of the examples (days since
  1970-01-01), and a small data file before and after loading.
\<close>

fun sample_to_datetime :: "cell \<Rightarrow> error + cell" where
  "sample_to_datetime (Text s) =
     (case map_of [(''2024-01-01'', 19723), (''2024-01-02'', 19724), (''2024-01-03'', 19725)] s of
        None \<Rightarrow> Inl ValueError
      | Some t \<Rightarrow> Inr (Stamp t))"
| "sample_to_datetime c = Inr c"

text \<open>The six legacy column names, the keys of the rename table.\<close>

definition legacy_names :: "string list" where
  "legacy_names = map fst rename_map"

definition sample_raw :: frame where
  "sample_raw =
    [(''date_'', [Text ''2024-01-01'', Text ''2024-01-02'']),
     (''overall_sessions'', [Number 30, Number 50]),
     (''sb_sessions'', [Number 10, Number 20]),
     (''sb_messages'', [Number 11, Number 21]),
     (''edc_sessions'', [Number 12, Number 22]),
     (''edc_messages'', [Number 13, Number 23]),
     (''payment_acceptence_sessions'', [Number 14, Number 24]),
     (''payment_acceptence_messages'', [Number 15, Number 25]),
     (''SB_sessions'', [Number 1, NA])]"

definition sample_loaded :: frame where
  "sample_loaded =
    [(''date_'', [Stamp 19723, Stamp 19724]),
     (''overall_sessions'', [Number 30, Number 50]),
     (''sb_hardware_sessions'', [Number 10, Number 20]),
     (''sb_hardware_messages'', [Number 11, Number 21]),
     (''edc_hardware_sessions'', [Number 12, Number 22]),
     (''edc_hardware_messages'', [Number 13, Number 23]),
     (''payment_acceptance_sessions'', [Number 14, Number 24]),
     (''payment_acceptance_messages'', [Number 15, Number 25]),
     (''SB_sessions'', [Number 1, NA])]"

definition sample_selection :: "(string \<times> string) list" where
  "sample_selection = [(''Soundbox Hardware'', ''sb_hardware''), (''EDC Hardware'', ''edc_hardware'')]"

text \<open>The chart data of the sample for these two categories and the sessions.\<close>

definition sample_long :: "long_record list" where
  "sample_long =
    [\<lparr>rec_date = Stamp 19723, rec_intent = ''Soundbox Hardware'', rec_value = Number 10\<rparr>,
     \<lparr>rec_date = Stamp 19724, rec_intent = ''Soundbox Hardware'', rec_value = Number 20\<rparr>,
     \<lparr>rec_date = Stamp 19723, rec_intent = ''EDC Hardware'', rec_value = Number 12\<rparr>,
     \<lparr>rec_date = Stamp 19724, rec_intent = ''EDC Hardware'', rec_value = Number 22\<rparr>,
     \<lparr>rec_date = Stamp 19723, rec_intent = ''Soundbox Hardware'', rec_value = Number 0\<rparr>,
     \<lparr>rec_date = Stamp 19723, rec_intent = ''Soundbox Hardware'', rec_value = Number (231 / 10)\<rparr>]"

section \<open>The registry lookup\<close>

lemma intent_label_all:
  "\<forall>kv \<in> set category_mapping. intent_label (snd kv @ ''_'' @ kind) = Inr (fst kv)"
  unfolding category_mapping_def intent_label_def
  by simp

lemma label_of_prefix_all:
  "\<forall>kv \<in> set category_mapping. label_of_prefix (snd kv) = Some (fst kv)"
  unfolding category_mapping_def label_of_prefix_def
  by simp

lemma only_own_prefix:
  "\<forall>kv \<in> set category_mapping. \<forall>kv' \<in> set category_mapping.
     startswith (snd kv @ ''_'' @ kind) (snd kv') \<longrightarrow> kv' = kv"
  unfolding category_mapping_def
  by simp

text \<open>
  C8. For every entry of the registry and every metric kind, the lookup of lines 129
  and 169 on the derived column name \<open>prefix @ ''_'' @ kind\<close> finds a match, and
  the first match is the entry's own label, the label the exact reverse lookup by
  prefix gives: no other entry's prefix starts that column name.
\<close>

theorem registry_first_match_is_exact:
  "\<forall>kv \<in> set category_mapping.
     intent_label (snd kv @ ''_'' @ kind) = Inr (fst kv)
   \<and> label_of_prefix (snd kv) = Some (fst kv)
   \<and> (\<forall>kv' \<in> set category_mapping.
         startswith (snd kv @ ''_'' @ kind) (snd kv') \<longrightarrow> kv' = kv)"
proof (intro ballI conjI)
  fix kv assume "kv \<in> set category_mapping"
  then show "intent_label (snd kv @ ''_'' @ kind) = Inr (fst kv)"
    by (rule bspec [OF intent_label_all])
next
  fix kv assume "kv \<in> set category_mapping"
  then show "label_of_prefix (snd kv) = Some (fst kv)"
    by (rule bspec [OF label_of_prefix_all])
next
  fix kv kv' assume "kv \<in> set category_mapping" "kv' \<in> set category_mapping"
  then show "startswith (snd kv @ ''_'' @ kind) (snd kv') \<longrightarrow> kv' = kv"
    by (rule bspec [OF bspec [OF only_own_prefix]])
qed

theorem registry_first_match_is_exact_witness:
  "(''Others'', ''other'') \<in> set category_mapping
   \<and> intent_label ''other_sessions'' = Inr ''Others''
   \<and> label_of_prefix ''other'' = Some ''Others''
   \<and> \<not> startswith ''other_sessions'' ''profile''"
proof -
  have m: "(''Others'', ''other'') \<in> set category_mapping"
    by (simp add: category_mapping_def)
  have m': "(''Profile'', ''profile'') \<in> set category_mapping"
    by (simp add: category_mapping_def)
  have p: "fst (''Others'', ''other'') = ''Others''" "snd (''Others'', ''other'') = ''other''"
    by simp_all
  have e: "''other'' @ ''_'' @ ''sessions'' = ''other_sessions''"
    by simp
  note r = bspec [OF registry_first_match_is_exact m, of "''sessions''", unfolded p e]
  have "startswith ''other_sessions'' (snd (''Profile'', ''profile'')) \<longrightarrow>
        (''Profile'', ''profile'') = (''Others'', ''other'')"
    by (rule bspec [OF conjunct2 [OF conjunct2 [OF r]] m'])
  then have n: "\<not> startswith ''other_sessions'' ''profile''"
    by simp
  show ?thesis
    using m conjunct1 [OF r] conjunct1 [OF conjunct2 [OF r]] n by (intro conjI)
qed

section \<open>Aggregation and loading\<close>




lemma rename_column_not_legacy: "rename_column rename_map n \<notin> set legacy_names"
  unfolding rename_column_def rename_map_def legacy_names_def
  by (simp split: option.split)

lemma length_setitem_in: "name \<in> fst ` set df \<Longrightarrow> length (setitem df name col) = length df"
  by (induction df name col rule: setitem.induct) auto

lemma getitem_mem: "getitem df name = Inr col \<Longrightarrow> name \<in> fst ` set df"
  by (auto simp: getitem_def split: option.splits dest: map_of_SomeD intro: rev_image_eqI)

lemma setitem_nth:
  "i < length df \<Longrightarrow> name \<in> fst ` set df \<Longrightarrow>
   fst (setitem df name col ! i) = fst (df ! i)
   \<and> (fst (df ! i) \<noteq> name \<longrightarrow> snd (setitem df name col ! i) = snd (df ! i))"
proof (induction df name col arbitrary: i rule: setitem.induct)
  case (1 name col)
  then show ?case by simp
next
  case (2 n c df name col)
  then show ?case by (cases i) auto
qed


lemma sequence_map_iff:
  "sequence (map f xs) = Inr ys \<longleftrightarrow> list_all2 (\<lambda>x y. f x = Inr y) xs ys"
proof (induction xs arbitrary: ys)
  case Nil
  then show ?case by auto
next
  case (Cons x xs)
  show ?case
  proof (cases "f x")
    case (Inl e)
    then show ?thesis by (auto simp: list_all2_Cons1)
  next
    case (Inr v)
    then show ?thesis
      using Cons.IH by (cases "sequence (map f xs)") (auto simp: list_all2_Cons1)
  qed
qed

lemma rename_column_date: "rename_column rename_map n = ''date_'' \<longleftrightarrow> n = ''date_''"
  unfolding rename_column_def rename_map_def
  by (simp split: option.split)

lemma map_of_rename_cons:
  "map_of (rename rename_map ((n, c) # df)) ''date_'' =
     (if n = ''date_'' then Some c else map_of (rename rename_map df) ''date_'')"
proof (cases "n = ''date_''")
  case True
  then have "rename_column rename_map n = ''date_''" by (simp add: rename_column_date)
  then show ?thesis using True by (simp add: rename_def)
next
  case False
  then have "rename_column rename_map n \<noteq> ''date_''" by (simp add: rename_column_date)
  then show ?thesis using False by (simp add: rename_def)
qed

lemma map_of_rename_date: "map_of (rename rename_map df) ''date_'' = map_of df ''date_''"
proof (induction df)
  case Nil
  then show ?case by (simp add: rename_def)
next
  case (Cons nc df)
  then show ?case by (cases nc) (simp add: map_of_rename_cons)
qed

lemma getitem_rename_date: "getitem (rename rename_map df) ''date_'' = getitem df ''date_''"
  by (simp add: getitem_def map_of_rename_date)

lemma map_of_setitem: "map_of (setitem df name col) name = Some col"
  by (induction df name col rule: setitem.induct) auto

lemma getitem_setitem: "getitem (setitem df name col) name = Inr col"
  by (simp add: getitem_def map_of_setitem)

text \<open>
  C4, as amended. The loader converts the date column exactly when its dtype is object:
  then each cell is replaced by what the date parser returns for it (and loading
  succeeds when every cell parses). A date column of any other dtype, date/time or not,
  is left as it is.
\<close>

theorem load_converts_text_dates:
  "getitem raw ''date_'' = Inr col \<Longrightarrow>
   (\<not> dtype_object col \<longrightarrow>
      (\<exists>df. load_data to_datetime raw = Inr df \<and> getitem df ''date_'' = Inr col))
   \<and> (dtype_object col \<longrightarrow>
      (\<forall>col'. list_all2 (\<lambda>c c'. to_datetime c = Inr c') col col' \<longrightarrow>
         (\<exists>df. load_data to_datetime raw = Inr df \<and> getitem df ''date_'' = Inr col')))
   \<and> (dtype_object col \<longrightarrow>
      (\<forall>df. load_data to_datetime raw = Inr df \<longrightarrow>
         (\<exists>col'. getitem df ''date_'' = Inr col'
                \<and> list_all2 (\<lambda>c c'. to_datetime c = Inr c') col col')))"
  by (auto simp: load_data_def getitem_rename_date getitem_setitem
      sequence_map_iff [symmetric] split: sum.splits)

lemma load_data_shape:
  assumes "load_data to_datetime raw = Inr df"
  shows "\<exists>mid. df = rename rename_map mid \<and> length mid = length raw
     \<and> (\<forall>i < length raw. fst (mid ! i) = fst (raw ! i)
          \<and> (fst (raw ! i) \<noteq> ''date_'' \<longrightarrow> snd (mid ! i) = snd (raw ! i)))"
proof -
  from assms obtain col where g: "getitem raw ''date_'' = Inr col"
    by (auto simp: load_data_def split: sum.splits)
  then have m: "''date_'' \<in> fst ` set raw" by (rule getitem_mem)
  show ?thesis
  proof (cases "dtype_object col")
    case False
    with assms g have "df = rename rename_map raw" by (simp add: load_data_def)
    then show ?thesis by auto
  next
    case True
    with assms g obtain col' where "df = rename rename_map (setitem raw ''date_'' col')"
      by (auto simp: load_data_def split: sum.splits)
    then show ?thesis
      using m by (intro exI [of _ "setitem raw ''date_'' col'"]) (simp add: length_setitem_in setitem_nth)
  qed
qed

lemma rename_column_legacy:
  "\<forall>lc \<in> set rename_map. rename_column rename_map (fst lc) = snd lc \<and> fst lc \<noteq> ''date_''"
  unfolding rename_column_def rename_map_def by simp

lemma rename_column_other: "n \<notin> set legacy_names \<Longrightarrow> rename_column rename_map n = n"
  unfolding rename_column_def legacy_names_def
  by (auto split: option.split dest: map_of_SomeD intro: rev_image_eqI)

text \<open>
  C5, as amended. After loading, the frame has the same columns in the same places;
  none of the six legacy names is left; a column with a legacy name carries the
  canonical name and its own cells; every other column keeps its name and, unless it is
  the date column, its cells.
\<close>

theorem load_rename_frame_effect:
  assumes "load_data to_datetime raw = Inr df"
  shows "length df = length raw
    \<and> (\<forall>l \<in> set legacy_names. l \<notin> fst ` set df)
    \<and> (\<forall>i < length raw. \<forall>lc \<in> set rename_map.
          fst (raw ! i) = fst lc \<longrightarrow> df ! i = (snd lc, snd (raw ! i)))
    \<and> (\<forall>i < length raw. fst (raw ! i) \<notin> set legacy_names \<longrightarrow>
          fst (df ! i) = fst (raw ! i)
          \<and> (fst (raw ! i) \<noteq> ''date_'' \<longrightarrow> snd (df ! i) = snd (raw ! i)))"
proof -
  from load_data_shape [OF assms] obtain mid where
    df: "df = rename rename_map mid" and len: "length mid = length raw" and
    nth: "\<And>i. i < length raw \<Longrightarrow> fst (mid ! i) = fst (raw ! i)
          \<and> (fst (raw ! i) \<noteq> ''date_'' \<longrightarrow> snd (mid ! i) = snd (raw ! i))"
    by blast
  have a: "length df = length raw" by (simp add: df rename_def len)
  have b: "\<forall>l \<in> set legacy_names. l \<notin> fst ` set df"
    using rename_column_not_legacy by (auto simp: df rename_def)
  have c: "\<forall>i < length raw. \<forall>lc \<in> set rename_map.
          fst (raw ! i) = fst lc \<longrightarrow> df ! i = (snd lc, snd (raw ! i))"
  proof (intro allI impI ballI)
    fix i lc assume i: "i < length raw" and lc: "lc \<in> set rename_map" and e: "fst (raw ! i) = fst lc"
    from bspec [OF rename_column_legacy lc] have r: "rename_column rename_map (fst lc) = snd lc"
      and d: "fst lc \<noteq> ''date_''" by simp_all
    from nth [OF i] e d have "fst (mid ! i) = fst lc" "snd (mid ! i) = snd (raw ! i)" by simp_all
    then show "df ! i = (snd lc, snd (raw ! i))"
      using i len r by (simp add: df rename_def)
  qed
  have d: "\<forall>i < length raw. fst (raw ! i) \<notin> set legacy_names \<longrightarrow>
          fst (df ! i) = fst (raw ! i)
          \<and> (fst (raw ! i) \<noteq> ''date_'' \<longrightarrow> snd (df ! i) = snd (raw ! i))"
  proof (intro allI impI)
    fix i assume i: "i < length raw" and n: "fst (raw ! i) \<notin> set legacy_names"
    from nth [OF i] rename_column_other [OF n] i len
    show "fst (df ! i) = fst (raw ! i)
          \<and> (fst (raw ! i) \<noteq> ''date_'' \<longrightarrow> snd (df ! i) = snd (raw ! i))"
      by (simp add: df rename_def)
  qed
  from a b c d show ?thesis by (intro conjI)
qed

lemma load_sample: "load_data sample_to_datetime sample_raw = Inr sample_loaded"
  by (simp add: load_data_def sample_raw_def sample_loaded_def getitem_def dtype_object_def
      rename_def rename_column_def rename_map_def)

theorem load_converts_text_dates_witness:
  "getitem sample_raw ''date_'' = Inr [Text ''2024-01-01'', Text ''2024-01-02'']
   \<and> dtype_object [Text ''2024-01-01'', Text ''2024-01-02'']
   \<and> list_all2 (\<lambda>c c'. sample_to_datetime c = Inr c')
        [Text ''2024-01-01'', Text ''2024-01-02''] [Stamp 19723, Stamp 19724]
   \<and> (\<exists>df. load_data sample_to_datetime sample_raw = Inr df
          \<and> getitem df ''date_'' = Inr [Stamp 19723, Stamp 19724])"
proof -
  have g: "getitem sample_raw ''date_'' = Inr [Text ''2024-01-01'', Text ''2024-01-02'']"
    by (simp add: sample_raw_def getitem_def)
  have d: "dtype_object [Text ''2024-01-01'', Text ''2024-01-02'']"
    by (simp add: dtype_object_def)
  have p: "list_all2 (\<lambda>c c'. sample_to_datetime c = Inr c')
        [Text ''2024-01-01'', Text ''2024-01-02''] [Stamp 19723, Stamp 19724]"
    by simp
  note r = load_converts_text_dates [OF g, of sample_to_datetime]
  have "\<exists>df. load_data sample_to_datetime sample_raw = Inr df
          \<and> getitem df ''date_'' = Inr [Stamp 19723, Stamp 19724]"
    by (rule mp [OF spec [OF mp [OF conjunct1 [OF conjunct2 [OF r]] d]] p])
  with g d p show ?thesis by (intro conjI)
qed

text \<open>
  C4 as stated fails: a date column read as numbers is neither parsed nor of a
  date/time type after loading.
\<close>

theorem numeric_date_column_not_converted:
  "load_data sample_to_datetime
     [(''date_'', [Number 20240101, Number 20240102]), (''overall_sessions'', [Number 30, Number 50])]
   = Inr [(''date_'', [Number 20240101, Number 20240102]), (''overall_sessions'', [Number 30, Number 50])]
   \<and> \<not> dtype_datetime [Number 20240101, Number 20240102]"
  by (simp add: load_data_def getitem_def dtype_object_def dtype_datetime_def
      rename_def rename_column_def rename_map_def)

theorem load_rename_frame_effect_witness:
  "load_data sample_to_datetime sample_raw = Inr sample_loaded
   \<and> length sample_loaded = length sample_raw
   \<and> ''sb_sessions'' \<notin> fst ` set sample_loaded
   \<and> sample_loaded ! 2 = (''sb_hardware_sessions'', snd (sample_raw ! 2))
   \<and> fst (sample_loaded ! 8) = ''SB_sessions''
   \<and> snd (sample_loaded ! 8) = snd (sample_raw ! 8)"
proof -
  note r = load_rename_frame_effect [OF load_sample]
  have a: "length sample_loaded = length sample_raw" by (rule conjunct1 [OF r])
  have "''sb_sessions'' \<in> set legacy_names" by (simp add: legacy_names_def rename_map_def)
  then have b: "''sb_sessions'' \<notin> fst ` set sample_loaded"
    by (rule bspec [OF conjunct1 [OF conjunct2 [OF r]]])
  have i2: "2 < length sample_raw" and i8: "8 < length sample_raw" by (simp_all add: sample_raw_def)
  have m: "(''sb_sessions'', ''sb_hardware_sessions'') \<in> set rename_map" by (simp add: rename_map_def)
  have e: "fst (sample_raw ! 2) = fst (''sb_sessions'', ''sb_hardware_sessions'')"
    by (simp add: sample_raw_def)
  have c: "sample_loaded ! 2 = (snd (''sb_sessions'', ''sb_hardware_sessions''), snd (sample_raw ! 2))"
    by (rule mp [OF bspec [OF mp [OF spec [OF conjunct1 [OF conjunct2 [OF conjunct2 [OF r]]]] i2] m] e])
  have n: "fst (sample_raw ! 8) \<notin> set legacy_names"
    by (simp add: sample_raw_def legacy_names_def rename_map_def)
  have n': "fst (sample_raw ! 8) \<noteq> ''date_''" by (simp add: sample_raw_def)
  note d = mp [OF mp [OF spec [OF conjunct2 [OF conjunct2 [OF conjunct2 [OF r]]]] i8] n]
  have d1: "fst (sample_loaded ! 8) = ''SB_sessions''"
    using conjunct1 [OF d] by (simp add: sample_raw_def)
  have d2: "snd (sample_loaded ! 8) = snd (sample_raw ! 8)"
    by (rule mp [OF conjunct2 [OF d] n'])
  from load_sample a b c d1 d2 show ?thesis by simp
qed

text \<open>
  C5 as stated fails: the date column is not in the rename table, and loading replaces
  its texts by timestamps.
\<close>

theorem load_changes_date_values:
  "load_data sample_to_datetime [(''date_'', [Text ''2024-01-01'']), (''sb_sessions'', [Number 10])]
     = Inr [(''date_'', [Stamp 19723]), (''sb_hardware_sessions'', [Number 10])]
   \<and> ''date_'' \<notin> fst ` set rename_map
   \<and> [Stamp 19723] \<noteq> [Text ''2024-01-01'']"
  by (simp add: load_data_def getitem_def dtype_object_def
      rename_def rename_column_def rename_map_def)

section \<open>Reshaping: the records of the table\<close>

lemma distinct_labels: "distinct (map fst category_mapping)"
  unfolding category_mapping_def by simp

lemma intent_column_entry:
  "c \<in> set category_mapping \<Longrightarrow> intent_column kind (fst c) = Inr (derived_column kind c)"
proof -
  assume "c \<in> set category_mapping"
  then have "(fst c, snd c) \<in> set category_mapping" by simp
  then have "map_of category_mapping (fst c) = Some (snd c)"
    by (rule map_of_is_SomeI [OF distinct_labels])
  then show ?thesis by (simp add: intent_column_def derived_column_def)
qed

lemma sequence_map_Inr: "(\<And>x. x \<in> set xs \<Longrightarrow> f x = Inr (g x)) \<Longrightarrow> sequence (map f xs) = Inr (map g xs)"
  by (induction xs) auto

lemma selected_intent_entries:
  assumes "set cats \<subseteq> set category_mapping"
  shows "selected_intent kind (map fst cats) = Inr (map (derived_column kind) cats)"
proof -
  have "sequence (map (\<lambda>c. intent_column kind (fst c)) cats) = Inr (map (derived_column kind) cats)"
  proof (rule sequence_map_Inr)
    fix c assume "c \<in> set cats"
    with assms have "c \<in> set category_mapping" by blast
    then show "intent_column kind (fst c) = Inr (derived_column kind c)"
      by (rule intent_column_entry)
  qed
  then show ?thesis by (simp add: selected_intent_def comp_def)
qed

lemma sequence_getitem:
  "list_all2 (\<lambda>c col. getitem df (derived_column kind c) = Inr col) cats cols \<Longrightarrow>
   sequence (map (\<lambda>c. getitem df (derived_column kind c)) cats) = Inr cols"
  by (induction cats cols rule: list_all2_induct) auto

lemma melt_entries:
  assumes "getitem df ''date_'' = Inr dates"
    and "list_all2 (\<lambda>c col. getitem df (derived_column kind c) = Inr col) cats cols"
  shows "melt df ''date_'' (map (derived_column kind) cats) =
     Inr (concat (map (\<lambda>cc. melt_column dates (derived_column kind (fst cc)) (snd cc)) (zip cats cols)))"
proof -
  have "length cats = length cols" using assms(2) by (rule list_all2_lengthD)
  then have "zip (map (derived_column kind) cats) cols = map (\<lambda>cc. (derived_column kind (fst cc), snd cc)) (zip cats cols)"
    by (induction cats cols rule: list_induct2) auto
  then show ?thesis
    using assms by (simp add: melt_def sequence_getitem comp_def)
qed

lemma relabel_entry:
  "c \<in> set category_mapping \<Longrightarrow>
   relabel \<lparr>rec_date = d, rec_intent = derived_column kind c, rec_value = v\<rparr> =
     Inr \<lparr>rec_date = d, rec_intent = fst c, rec_value = v\<rparr>"
  using bspec [OF intent_label_all, of c kind]
  by (simp add: relabel_def derived_column_def)

lemma apply_intent_column:
  "c \<in> set category_mapping \<Longrightarrow>
   sequence (map relabel (melt_column dates (derived_column kind c) col)) = Inr (melt_column dates (fst c) col)"
  unfolding melt_column_def map_map
  by (rule sequence_map_Inr [where g = "\<lambda>dv. \<lparr>rec_date = fst dv, rec_intent = fst c, rec_value = snd dv\<rparr>", simplified map_map [symmetric]] | simp add: relabel_entry comp_def)+

lemma length_concat_blocks:
  "\<forall>b \<in> set bs. length b = n \<Longrightarrow> length (concat bs) = length bs * n"
  by (induction bs) auto

lemma nth_concat_blocks:
  "\<forall>b \<in> set bs. length b = n \<Longrightarrow> j < length bs \<Longrightarrow> i < n \<Longrightarrow>
   concat bs ! (j * n + i) = bs ! j ! i"
proof (induction bs arbitrary: j)
  case Nil
  then show ?case by simp
next
  case (Cons b bs)
  show ?case
  proof (cases j)
    case 0
    with Cons.prems show ?thesis by (simp add: nth_append)
  next
    case (Suc j')
    with Cons.prems have "concat bs ! (j' * n + i) = bs ! j' ! i"
      by (intro Cons.IH) auto
    moreover have "length b = n" using Cons.prems by simp
    ultimately show ?thesis using Suc by (simp add: nth_append add.assoc)
  qed
qed

lemma length_melt_column:
  "length dates = n \<Longrightarrow> length col = n \<Longrightarrow> length (melt_column dates name col) = n"
  by (simp add: melt_column_def)

lemma nth_melt_column:
  "length dates = n \<Longrightarrow> length col = n \<Longrightarrow> i < n \<Longrightarrow>
   melt_column dates name col ! i = \<lparr>rec_date = dates ! i, rec_intent = name, rec_value = col ! i\<rparr>"
  by (simp add: melt_column_def)

lemma real_records_shape:
  assumes "length cats = length cols" and "length dates = n" and "\<forall>col \<in> set cols. length col = n"
  shows "length (real_records dates cats cols) = length cats * n"
    and "j < length cats \<Longrightarrow> i < n \<Longrightarrow>
         real_records dates cats cols ! (j * n + i) =
           \<lparr>rec_date = dates ! i, rec_intent = fst (cats ! j), rec_value = cols ! j ! i\<rparr>"
proof -
  let ?bs = "map (\<lambda>cc. melt_column dates (fst (fst cc)) (snd cc)) (zip cats cols)"
  have b: "\<forall>b \<in> set ?bs. length b = n"
    using assms by (auto simp: length_melt_column dest: set_zip_rightD)
  have l: "length ?bs = length cats" using assms(1) by simp
  show "length (real_records dates cats cols) = length cats * n"
    unfolding real_records_def using length_concat_blocks [OF b] l by simp
  assume j: "j < length cats" and i: "i < n"
  have "concat ?bs ! (j * n + i) = ?bs ! j ! i"
    using b j i l by (intro nth_concat_blocks) auto
  also have "?bs ! j = melt_column dates (fst (cats ! j)) (cols ! j)"
    using j assms(1) by simp
  also have "\<dots> ! i = \<lparr>rec_date = dates ! i, rec_intent = fst (cats ! j), rec_value = cols ! j ! i\<rparr>"
    using assms j i by (intro nth_melt_column) auto
  finally show "real_records dates cats cols ! (j * n + i) =
           \<lparr>rec_date = dates ! i, rec_intent = fst (cats ! j), rec_value = cols ! j ! i\<rparr>"
    by (simp add: real_records_def)
qed

lemma sequence_append:
  "sequence xs = Inr vs \<Longrightarrow> sequence ys = Inr ws \<Longrightarrow> sequence (xs @ ys) = Inr (vs @ ws)"
  by (induction xs arbitrary: vs) (auto split: sum.splits)

lemma sequence_concat:
  "list_all2 (\<lambda>xs vs. sequence xs = Inr vs) xss vss \<Longrightarrow> sequence (concat xss) = Inr (concat vss)"
  by (induction xss vss rule: list_all2_induct) (auto simp: sequence_append)

lemma apply_intent_entries:
  assumes "set cats \<subseteq> set category_mapping" and "length cats = length cols"
  shows "apply_intent (concat (map (\<lambda>cc. melt_column dates (derived_column kind (fst cc)) (snd cc)) (zip cats cols)))
     = Inr (real_records dates cats cols)"
proof -
  have "list_all2 (\<lambda>xs vs. sequence xs = Inr vs)
      (map (\<lambda>cc. map relabel (melt_column dates (derived_column kind (fst cc)) (snd cc))) (zip cats cols))
      (map (\<lambda>cc. melt_column dates (fst (fst cc)) (snd cc)) (zip cats cols))"
    unfolding list_all2_map1 list_all2_map2
  proof (rule list_all2_same [THEN iffD2], intro ballI)
    fix cc assume "cc \<in> set (zip cats cols)"
    then have "(fst cc, snd cc) \<in> set (zip cats cols)" by simp
    then have "fst cc \<in> set cats" by (rule set_zip_leftD)
    with assms have "fst cc \<in> set category_mapping" by blast
    then show "sequence (map relabel (melt_column dates (derived_column kind (fst cc)) (snd cc)))
        = Inr (melt_column dates (fst (fst cc)) (snd cc))"
      by (rule apply_intent_column)
  qed
  from sequence_concat [OF this] show ?thesis
    by (simp add: apply_intent_def real_records_def map_concat comp_def)
qed

lemma reshape_entries:
  assumes "cats \<noteq> []" and "set cats \<subseteq> set category_mapping"
    and "getitem df ''date_'' = Inr dates"
    and "list_all2 (\<lambda>c col. getitem df (derived_column kind c) = Inr col) cats cols"
  shows "reshape df (map fst cats) kind = pad (real_records dates cats cols)"
proof -
  have l: "length cats = length cols" using assms(4) by (rule list_all2_lengthD)
  show ?thesis
    using assms(1)
    by (simp add: reshape_def selected_intent_entries [OF assms(2)]
        melt_entries [OF assms(3,4)] apply_intent_entries [OF assms(2) l])
qed

section \<open>Minimum and maximum of a column\<close>

lemma Max_insert_insert:
  "finite S \<Longrightarrow> Max (insert (max a x) S) = max a (Max (insert x S))" for a :: "'a :: linorder"
  by (cases "S = {}") (simp_all add: max.assoc)

lemma Min_insert_insert:
  "finite S \<Longrightarrow> Min (insert (min a x) S) = min a (Min (insert x S))" for a :: "'a :: linorder"
  by (cases "S = {}") (simp_all add: min.assoc)

lemma reduce_numbers:
  "reduce_cells lo (Number a) (map Number xs) =
     Inr (Number (if lo then Min (insert a (set xs)) else Max (insert a (set xs))))"
  by (induction xs arbitrary: a) (simp_all add: Max_insert_insert Min_insert_insert)


lemma filter_numeric:
  "list_all is_numeric vs \<Longrightarrow> filter (\<lambda>c. c \<noteq> NA) vs = map Number (numbers vs)"
proof (induction vs)
  case Nil
  then show ?case by simp
next
  case (Cons v vs)
  then show ?case by (cases v) simp_all
qed

lemma numbers_append: "numbers (vs @ ws) = numbers vs @ numbers ws"
  by (induction vs rule: numbers.induct) simp_all

lemma series_max_numbers:
  "xs \<noteq> [] \<Longrightarrow> list_all is_numeric vs \<Longrightarrow> numbers vs = xs \<Longrightarrow>
   series_max vs = Inr (Number (Max (set xs)))"
  by (cases xs) (simp_all add: series_max_def filter_numeric reduce_numbers)

lemma series_max_with_zero:
  assumes "list_all is_numeric vs"
  shows "series_max (vs @ [Number z]) = Inr (Number (Max (insert z (set (numbers vs)))))"
proof -
  have "list_all is_numeric (vs @ [Number z])" using assms by simp
  moreover have "numbers (vs @ [Number z]) = numbers vs @ [z]" by (simp add: numbers_append)
  ultimately have "series_max (vs @ [Number z]) = Inr (Number (Max (set (numbers vs @ [z]))))"
    by (intro series_max_numbers) auto
  then show ?thesis by simp
qed


lemma pick_number_right: "pick lo acc (Number z) = Inr r \<Longrightarrow> \<exists>a b. acc = Number a \<and> r = Number b"
  by (cases acc) auto

lemma pick_number_result: "pick lo acc c = Inr (Number b) \<Longrightarrow> (\<exists>a. acc = Number a) \<and> (\<exists>x. c = Number x)"
  by (cases acc; cases c) auto

lemma reduce_ends_in_number:
  "reduce_cells lo acc (cs @ [Number z]) = Inr r \<Longrightarrow>
   (\<exists>a. acc = Number a) \<and> (\<forall>c \<in> set cs. \<exists>x. c = Number x)"
proof (induction cs arbitrary: acc)
  case Nil
  then show ?case by (auto split: sum.splits dest: pick_number_right)
next
  case (Cons c cs)
  from Cons.prems obtain acc' where p: "pick lo acc c = Inr acc'"
    and r: "reduce_cells lo acc' (cs @ [Number z]) = Inr r"
    by (auto split: sum.splits)
  from Cons.IH [OF r] obtain a' where a': "acc' = Number a'" and cs: "\<forall>c \<in> set cs. \<exists>x. c = Number x"
    by blast
  from p a' have "(\<exists>a. acc = Number a) \<and> (\<exists>x. c = Number x)"
    by (auto dest: pick_number_result)
  with cs show ?case by auto
qed

lemma numeric_of_filter:
  "\<forall>c \<in> set (filter (\<lambda>c. c \<noteq> NA) vs). \<exists>x. c = Number x \<Longrightarrow> list_all is_numeric vs"
proof (induction vs)
  case Nil
  then show ?case by simp
next
  case (Cons v vs)
  then show ?case by (cases v) auto
qed

lemma series_max_with_zero_numeric:
  assumes "series_max (vs @ [Number z]) = Inr r"
  shows "list_all is_numeric vs"
proof (cases "filter (\<lambda>c. c \<noteq> NA) vs")
  case Nil
  then show ?thesis by (intro numeric_of_filter) simp
next
  case (Cons c cs)
  with assms have "reduce_cells False c (cs @ [Number z]) = Inr r"
    by (simp add: series_max_def)
  from reduce_ends_in_number [OF this] Cons show ?thesis
    by (intro numeric_of_filter) auto
qed

section \<open>The two added rows\<close>


lemma pad_inverse:
  assumes "pad recs = Inr out" and "recs \<noteq> []"
  shows "\<exists>d. series_min (map rec_date recs) = Inr d
     \<and> list_all is_numeric (map rec_value recs)
     \<and> series_max (map rec_value recs @ [Number 0]) =
          Inr (Number (Max (insert 0 (set (numbers (map rec_value recs))))))
     \<and> out = recs @
         [\<lparr>rec_date = d, rec_intent = rec_intent (hd recs), rec_value = Number 0\<rparr>,
          \<lparr>rec_date = d, rec_intent = rec_intent (hd recs),
            rec_value = Number (Max (insert 0 (set (numbers (map rec_value recs)))) * (105 / 100))\<rparr>]"
proof -
  from assms obtain d where d: "series_min (map rec_date recs) = Inr d"
    by (cases "series_min (map rec_date recs)") (auto simp: pad_def)
  from assms d obtain r where r: "series_max (map rec_value recs @ [Number 0]) = Inr r"
    by (cases "series_max (map rec_value recs @ [Number 0])") (auto simp: pad_def zero_row_def top_buffer_def Let_def)
  then have n: "list_all is_numeric (map rec_value recs)"
    by (rule series_max_with_zero_numeric)
  then have x: "series_max (map rec_value recs @ [Number 0]) =
      Inr (Number (Max (insert 0 (set (numbers (map rec_value recs))))))"
    by (rule series_max_with_zero)
  from assms d x have "out = recs @
         [\<lparr>rec_date = d, rec_intent = rec_intent (hd recs), rec_value = Number 0\<rparr>,
          \<lparr>rec_date = d, rec_intent = rec_intent (hd recs),
            rec_value = Number (Max (insert 0 (set (numbers (map rec_value recs)))) * (105 / 100))\<rparr>]"
    by (simp add: pad_def zero_row_def top_buffer_def Let_def)
  with d n x show ?thesis by blast
qed

lemma pad_empty: "pad [] = Inr []"
  by (simp add: pad_def)

lemma pad_nonempty: "pad recs = Inr out \<Longrightarrow> recs \<noteq> [] \<Longrightarrow> out \<noteq> []"
  by (drule (1) pad_inverse) auto



lemma getitem_wf: "wf_frame n df \<Longrightarrow> getitem df name = Inr col \<Longrightarrow> length col = n"
  by (auto simp: wf_frame_def getitem_def list_all_iff split: option.splits dest!: map_of_SomeD)

section \<open>Order, number and padding of the records\<close>

lemma table_columns:
  assumes "wf_frame n df" and "getitem df ''date_'' = Inr dates"
    and "list_all2 (\<lambda>c col. getitem df (derived_column kind c) = Inr col) cats cols"
  shows "length dates = n" and "\<forall>col \<in> set cols. length col = n" and "length cats = length cols"
proof -
  show "length dates = n" using assms(1,2) by (rule getitem_wf)
  show "length cats = length cols" using assms(3) by (rule list_all2_lengthD)
  show "\<forall>col \<in> set cols. length col = n"
  proof
    fix col assume "col \<in> set cols"
    then obtain j where "j < length cols" "col = cols ! j" by (auto simp: in_set_conv_nth)
    with assms(3) have "getitem df (derived_column kind (cats ! j)) = Inr col"
      by (auto simp: list_all2_conv_all_nth)
    with assms(1) show "length col = n" by (rule getitem_wf)
  qed
qed


text \<open>
  C2, as amended. When the output is not empty, the value of the last record is 1.05
  times the maximum over the records before it, the zero row included: 1.05 times the
  greater of 0 and the greatest real value.
\<close>

theorem headroom_from_padded_maximum:
  assumes "distinct selected_categories"
    and "reshape df selected_categories kind = Inr out" and "out \<noteq> []"
  shows "\<exists>recs zero top_row m. out = recs @ [zero, top_row]
     \<and> recs \<noteq> []
     \<and> rec_value zero = Number 0
     \<and> series_max (map rec_value (recs @ [zero])) = Inr (Number m)
     \<and> m = Max (insert 0 (set (numbers (map rec_value recs))))
     \<and> rec_value top_row = Number (m * (105 / 100))"
proof -
  from assms(2,3) obtain recs where p: "pad recs = Inr out"
    by (auto simp: reshape_def split: sum.splits if_splits)
  with assms(3) have ne: "recs \<noteq> []" by (auto simp: pad_empty)
  from pad_inverse [OF p ne] obtain d where
    x: "series_max (map rec_value recs @ [Number 0]) =
          Inr (Number (Max (insert 0 (set (numbers (map rec_value recs))))))"
    and o: "out = recs @
         [\<lparr>rec_date = d, rec_intent = rec_intent (hd recs), rec_value = Number 0\<rparr>,
          \<lparr>rec_date = d, rec_intent = rec_intent (hd recs),
            rec_value = Number (Max (insert 0 (set (numbers (map rec_value recs)))) * (105 / 100))\<rparr>]"
    by blast
  show ?thesis
    by (rule exI [of _ recs], rule exI [of _ "\<lparr>rec_date = d, rec_intent = rec_intent (hd recs), rec_value = Number 0\<rparr>"],
        rule exI [of _ "\<lparr>rec_date = d, rec_intent = rec_intent (hd recs),
            rec_value = Number (Max (insert 0 (set (numbers (map rec_value recs)))) * (105 / 100))\<rparr>"],
        rule exI [of _ "Max (insert 0 (set (numbers (map rec_value recs))))"])
       (use ne x o in simp)
qed








text \<open>
  C7. With no category selected the output is empty; for a table without rows it is
  empty for every selection whose columns exist; and an output that is not empty
  consists of at least one real record followed by the two added rows.
\<close>

theorem reshape_empty_cases:
  "reshape df [] kind = Inr []
   \<and> (cats \<noteq> [] \<and> distinct cats \<and> set cats \<subseteq> set category_mapping \<and> wf_frame 0 df
        \<and> getitem df ''date_'' = Inr dates
        \<and> list_all2 (\<lambda>c col. getitem df (derived_column kind c) = Inr col) cats cols
      \<longrightarrow> reshape df (map fst cats) kind = Inr [])
   \<and> (reshape df selected_categories kind = Inr out \<longrightarrow>
        out = [] \<or> (\<exists>recs zero top_row. recs \<noteq> [] \<and> out = recs @ [zero, top_row]))"
proof (intro conjI impI)
  show "reshape df [] kind = Inr []"
    by (simp add: reshape_def selected_intent_def)
next
  assume a: "cats \<noteq> [] \<and> distinct cats \<and> set cats \<subseteq> set category_mapping \<and> wf_frame 0 df
        \<and> getitem df ''date_'' = Inr dates
        \<and> list_all2 (\<lambda>c col. getitem df (derived_column kind c) = Inr col) cats cols"
  then have t: "length dates = 0" "\<forall>col \<in> set cols. length col = 0" "length cats = length cols"
    using table_columns [of 0 df dates kind cats cols] by simp_all
  then have "length (real_records dates cats cols) = length cats * 0"
    by (intro real_records_shape(1)) auto
  then have "real_records dates cats cols = []" by simp
  then show "reshape df (map fst cats) kind = Inr []"
    using a reshape_entries [of cats df dates kind cols] by (simp add: pad_empty)
next
  assume r: "reshape df selected_categories kind = Inr out"
  show "out = [] \<or> (\<exists>recs zero top_row. recs \<noteq> [] \<and> out = recs @ [zero, top_row])"
  proof (cases "selected_categories = []")
    case True
    with r show ?thesis by (simp add: reshape_def selected_intent_def)
  next
    case False
    with r obtain recs where p: "pad recs = Inr out"
      by (auto simp: reshape_def split: sum.splits)
    show ?thesis
    proof (cases "recs = []")
      case True
      with p show ?thesis by (simp add: pad_empty)
    next
      case False
      from pad_inverse [OF p False] False show ?thesis by blast
    qed
  qed
qed

section \<open>The sample\<close>

lemmas reshape_unfold =
  reshape_def selected_intent_def intent_column_def category_mapping_def melt_def getitem_def
  melt_column_def apply_intent_def relabel_def intent_label_def pad_def zero_row_def
  top_buffer_def series_min_def
  series_max_def Let_def

lemma reshape_sample:
  "reshape sample_loaded (map fst sample_selection) ''sessions'' = Inr sample_long"
  by (simp add: reshape_unfold sample_loaded_def sample_selection_def sample_long_def)

lemma reshape_negative:
  "reshape [(''date_'', [Stamp 19723]), (''sb_hardware_sessions'', [Number (- 10)])]
      [''Soundbox Hardware''] ''sessions'' =
    Inr [\<lparr>rec_date = Stamp 19723, rec_intent = ''Soundbox Hardware'', rec_value = Number (- 10)\<rparr>,
         \<lparr>rec_date = Stamp 19723, rec_intent = ''Soundbox Hardware'', rec_value = Number 0\<rparr>,
         \<lparr>rec_date = Stamp 19723, rec_intent = ''Soundbox Hardware'', rec_value = Number 0\<rparr>]"
  by (simp add: reshape_unfold)




theorem headroom_from_padded_maximum_witness:
  "distinct (map fst sample_selection)
   \<and> reshape sample_loaded (map fst sample_selection) ''sessions'' = Inr sample_long
   \<and> sample_long \<noteq> []
   \<and> (\<exists>recs zero top_row m. sample_long = recs @ [zero, top_row]
     \<and> recs \<noteq> []
     \<and> rec_value zero = Number 0
     \<and> series_max (map rec_value (recs @ [zero])) = Inr (Number m)
     \<and> m = Max (insert 0 (set (numbers (map rec_value recs))))
     \<and> rec_value top_row = Number (m * (105 / 100)))"
proof -
  have a: "distinct (map fst sample_selection)" by (simp add: sample_selection_def)
  have b: "sample_long \<noteq> []" by (simp add: sample_long_def)
  from headroom_from_padded_maximum [OF a reshape_sample b] a reshape_sample b
  show ?thesis by (intro conjI)
qed

text \<open>
  C2 as stated fails: for a single real value of -10 the last record holds 0, not
  1.05 times -10.
\<close>

theorem headroom_not_from_real_maximum:
  "reshape [(''date_'', [Stamp 19723]), (''sb_hardware_sessions'', [Number (- 10)])]
      [''Soundbox Hardware''] ''sessions'' =
    Inr [\<lparr>rec_date = Stamp 19723, rec_intent = ''Soundbox Hardware'', rec_value = Number (- 10)\<rparr>,
         \<lparr>rec_date = Stamp 19723, rec_intent = ''Soundbox Hardware'', rec_value = Number 0\<rparr>,
         \<lparr>rec_date = Stamp 19723, rec_intent = ''Soundbox Hardware'', rec_value = Number 0\<rparr>]
   \<and> Number 0 \<noteq> Number (Max (set [- 10]) * (105 / 100))"
  using reshape_negative by simp




theorem reshape_empty_cases_witness:
  "reshape sample_loaded [] ''sessions'' = Inr []
   \<and> reshape [(''date_'', []), (''sb_hardware_sessions'', [])] [''Soundbox Hardware''] ''sessions''
       = Inr []"
proof -
  let ?df = "[(''date_'', []), (''sb_hardware_sessions'', [])] :: frame"
  let ?cats = "[(''Soundbox Hardware'', ''sb_hardware'')]"
  have h: "?cats \<noteq> [] \<and> distinct ?cats \<and> set ?cats \<subseteq> set category_mapping \<and> wf_frame 0 ?df
        \<and> getitem ?df ''date_'' = Inr []
        \<and> list_all2 (\<lambda>c col. getitem ?df (derived_column ''sessions'' c) = Inr col) ?cats [[]]"
    by (simp add: category_mapping_def wf_frame_def getitem_def derived_column_def)
  have a: "reshape sample_loaded [] ''sessions'' = Inr []"
    by (rule conjunct1 [OF reshape_empty_cases])
  have "reshape ?df (map fst ?cats) ''sessions'' = Inr []"
    by (rule mp [OF conjunct1 [OF conjunct2 [OF reshape_empty_cases]] h])
  then have "reshape ?df [''Soundbox Hardware''] ''sessions'' = Inr []" by simp
  with a show ?thesis by (intro conjI)
qed

section \<open>The table is never written to\<close>

lemma run_total_heap: "snd (run_total a name h) = h"
  by (simp add: run_total_def split: option.splits obj.splits)

lemma run_melt_heap:
  "run_melt a id_var value_vars h = (r, h') \<Longrightarrow>
   (\<exists>xs. h' = h @ xs) \<and> (\<forall>m. r = Inr m \<longrightarrow> m = length h \<and> m < length h')"
  by (auto simp: run_melt_def alloc_def split: option.splits obj.splits sum.splits)

lemma run_apply_intent_heap:
  "run_apply_intent m h = (r, h') \<Longrightarrow> length h' = length h \<and> (\<forall>a. a \<noteq> m \<longrightarrow> h' ! a = h ! a)"
  by (auto simp: run_apply_intent_def split: option.splits obj.splits sum.splits)

lemma run_pad_heap: "run_pad m h = (r, h') \<Longrightarrow> \<exists>xs. h' = h @ xs"
  by (auto simp: run_pad_def alloc_def Let_def split: option.splits obj.splits sum.splits if_splits)

lemma run_reshape_heap:
  "\<exists>xs. snd (run_reshape a selected_categories kind h) = h @ xs"
proof (cases "selected_intent kind selected_categories")
  case (Inl e)
  then show ?thesis by (simp add: run_reshape_def)
next
  case (Inr value_vars)
  show ?thesis
  proof (cases "selected_categories = []")
    case True
    with Inr show ?thesis by (simp add: run_reshape_def)
  next
    case False
    obtain r1 h1 where m: "run_melt a ''date_'' value_vars h = (r1, h1)" by force
    from run_melt_heap [OF m] obtain xs where h1: "h1 = h @ xs"
      and fresh: "\<forall>m. r1 = Inr m \<longrightarrow> m = length h \<and> m < length h1" by blast
    show ?thesis
    proof (cases r1)
      case (Inl e)
      with Inr False m h1 show ?thesis by (simp add: run_reshape_def)
    next
      case r1: (Inr m)
      with fresh have ml: "m = length h" by simp
      obtain r2 h2 where ai: "run_apply_intent m h1 = (r2, h2)" by force
      from run_apply_intent_heap [OF ai] have l2: "length h2 = length h1"
        and same: "\<forall>a. a \<noteq> m \<longrightarrow> h2 ! a = h1 ! a" by simp_all
      have "take (length h) h2 = h"
      proof (rule nth_equalityI)
        show "length (take (length h) h2) = length h" using l2 h1 by simp
      next
        fix i assume "i < length (take (length h) h2)"
        then have i: "i < length h" by simp
        then have "h2 ! i = h1 ! i" using same ml by simp
        then show "take (length h) h2 ! i = h ! i" using i h1 by (simp add: nth_append)
      qed
      then obtain ys where h2: "h2 = h @ ys"
        by (metis append_take_drop_id)
      show ?thesis
      proof (cases r2)
        case (Inl e)
        with Inr False m r1 ai h2 show ?thesis by (simp add: run_reshape_def)
      next
        case r2: (Inr u)
        obtain r3 h3 where p: "run_pad m h2 = (r3, h3)" by force
        from run_pad_heap [OF p] h2 obtain zs where "h3 = h @ zs" by auto
        with Inr False m r1 ai r2 p show ?thesis
          by (cases r3) (simp_all add: run_reshape_def)
      qed
    qed
  qed
qed

lemma run_call_heap: "\<exists>xs. run_call a c h = h @ xs"
  by (cases c) (simp_all add: run_total_heap run_reshape_heap)

lemma run_calls_heap: "\<exists>xs. run_calls a cs h = h @ xs"
proof (induction cs arbitrary: h)
  case Nil
  then show ?case by simp
next
  case (Cons c cs)
  obtain xs where "run_call a c h = h @ xs" using run_call_heap by blast
  moreover obtain ys where "run_calls a cs (h @ xs) = (h @ xs) @ ys" using Cons.IH by blast
  ultimately show ?case by simp
qed

text \<open>
  C9. Whatever totals and charts are computed, in any order, the object of the loaded
  table is the same afterwards, and so is every object that existed before: the
  statements write to the objects they have created themselves only.
\<close>

theorem table_never_mutated:
  "lookup h df_ref = Some (Frame df) \<Longrightarrow>
   lookup (run_calls df_ref calls h) df_ref = Some (Frame df)
   \<and> take (length h) (run_calls df_ref calls h) = h"
proof -
  assume l: "lookup h df_ref = Some (Frame df)"
  obtain xs where x: "run_calls df_ref calls h = h @ xs" using run_calls_heap by blast
  from l have "df_ref < length h" "h ! df_ref = Frame df"
    by (simp_all add: lookup_def split: if_splits)
  then show ?thesis by (simp add: x lookup_def nth_append)
qed

lemma run_reshape_result:
  assumes "lookup h a = Some (Frame df)"
  shows "case run_reshape a selected_categories kind h of
      (Inl e, h') \<Rightarrow> reshape df selected_categories kind = Inl e
    | (Inr None, h') \<Rightarrow> selected_categories = [] \<and> reshape df selected_categories kind = Inr []
    | (Inr (Some r), h') \<Rightarrow>
        \<exists>out. reshape df selected_categories kind = Inr out \<and> lookup h' r = Some (Long out)"
  using assms
  by (auto simp: run_reshape_def reshape_def run_melt_def run_apply_intent_def run_pad_def
      pad_def alloc_def lookup_def Let_def nth_append
      split: sum.splits option.splits obj.splits if_splits)

theorem table_never_mutated_witness:
  "lookup [Frame sample_loaded] 0 = Some (Frame sample_loaded)
   \<and> lookup (run_calls 0 [Total ''overall_sessions'',
                           Reshape [''Soundbox Hardware'', ''EDC Hardware''] ''sessions'']
              [Frame sample_loaded]) 0 = Some (Frame sample_loaded)
   \<and> run_calls 0 [Total ''overall_sessions'',
                   Reshape [''Soundbox Hardware'', ''EDC Hardware''] ''sessions'']
        [Frame sample_loaded] =
      [Frame sample_loaded, Long (take 4 sample_long), Long (take 5 sample_long), Long sample_long]"
proof -
  have l: "lookup [Frame sample_loaded] 0 = Some (Frame sample_loaded)"
    by (simp add: lookup_def)
  have r: "run_calls 0 [Total ''overall_sessions'',
                   Reshape [''Soundbox Hardware'', ''EDC Hardware''] ''sessions'']
        [Frame sample_loaded] =
      [Frame sample_loaded, Long (take 4 sample_long), Long (take 5 sample_long), Long sample_long]"
    by (simp add: run_total_def run_reshape_def run_melt_def run_apply_intent_def run_pad_def
        alloc_def lookup_def reshape_unfold sample_loaded_def sample_long_def)
  from conjunct1 [OF table_never_mutated [OF l]] l r show ?thesis by (intro conjI)
qed

end
